theory Spec2Isabelle
  imports Main "HOL-Library.AList"
begin

section \<open>JavaScript values\<close>

text \<open>
  The values that flow through \<^verbatim>\<open>fetch\<close> (router/fromServer.js) and
  \<^verbatim>\<open>PWA.recordState\<close>: \<^verbatim>\<open>undefined\<close> and \<^verbatim>\<open>null\<close> are
  different values, an object is the list of its own properties (looked up with
  \<open>map_of\<close>; the enumeration order of integer-like keys is not modelled).
\<close>

datatype jsval =
    JUndefined
  | JNull
  | JBool bool
  | JNum int
  | JStr string
  | JArr "jsval list"
  | JObj "(string \<times> jsval) list"

text \<open>What the code can throw or reject with.\<close>

datatype error =
    StaleResponseError
  | Error string
  | TypeError string
  | SyntaxError string
  | DOMException string

text \<open>\<^verbatim>\<open>result != null\<close>: the loose comparison is false for null and for undefined.\<close>

definition not_nullish :: "jsval \<Rightarrow> bool" where
  "not_nullish v = (v \<noteq> JUndefined \<and> v \<noteq> JNull)"

text \<open>Array indices and string indices as property keys: the decimal numeral.\<close>

fun string_of_nat :: "nat \<Rightarrow> string" where
  "string_of_nat n =
     (if n < 10 then [''0123456789'' ! n]
      else string_of_nat (n div 10) @ [''0123456789'' ! (n mod 10)])"

declare string_of_nat.simps [simp del]

text \<open>The own enumerable properties that an object spread \<^verbatim>\<open>...v\<close> copies.\<close>

fun own_props :: "jsval \<Rightarrow> (string \<times> jsval) list" where
  "own_props (JObj ps) = ps"
| "own_props (JArr xs) = zip (map string_of_nat [0..<length xs]) xs"
| "own_props (JStr s) = zip (map string_of_nat [0..<length s]) (map (\<lambda>c. JStr [c]) s)"
| "own_props JUndefined = []"
| "own_props JNull = []"
| "own_props (JBool b) = []"
| "own_props (JNum n) = []"

text \<open>
  \<^verbatim>\<open>{ ...target, ...v }\<close>: every own property of \<open>v\<close> is written to the target in turn;
  a key that is already there keeps its place and takes the new value.
\<close>

definition spread :: "(string \<times> jsval) list \<Rightarrow> jsval \<Rightarrow> (string \<times> jsval) list" where
  "spread target v = fold (\<lambda>(k, x). AList.update k x) (own_props v) target"

section \<open>The browser objects that fetch reads\<close>

text \<open>\<^verbatim>\<open>window.location\<close> (the same object as \<^verbatim>\<open>document.location\<close>).\<close>

record Location =
  href :: string
  protocol :: string
  hostname :: string
  port :: string

text \<open>The fields of a parsed \<^verbatim>\<open>new URL(url)\<close>.\<close>

record URL =
  url_protocol :: string
  url_hostname :: string
  url_port :: string
  url_pathname :: string
  url_search :: string
  url_hash :: string

text \<open>
  What the platform supplies: the URL parser (\<^verbatim>\<open>new URL(url)\<close> throws a TypeError on
  a string that is no absolute URL) and the value of \<^verbatim>\<open>getAPIVersion()\<close>.
\<close>

record platform =
  URL_new :: "string \<Rightarrow> error + URL"
  getAPIVersion :: string

text \<open>The three header names imported from \<^verbatim>\<open>./headers\<close>.\<close>

datatype header = REACT_STOREFRONT | API_VERSION | CLIENT_IF

record Request =
  req_url :: string
  req_cache :: string
  req_credentials :: string
  req_headers :: "(header \<times> string) list"

text \<open>
  The fields of the fetch response that the code reads before the body; \<open>url\<close> is
  \<open>None\<close> when the property is undefined.
\<close>

record Response =
  redirected :: bool
  url :: "string option"
  status :: nat

text \<open>The second argument of \<^verbatim>\<open>fetch\<close>; \<open>None\<close> is a cache option left undefined.\<close>

record options =
  cache :: "string option"
  onlyHit :: bool

text \<open>What a call does to the world outside, in the order it does it.\<close>

datatype effect =
    AbortPrefetches
  | Dispatch Request
  | ResumePrefetches
  | HistoryPush string
  | LocationAssign string
  | MarkRedirected

section \<open>redirectTo (fromServer.js, lines 89-102)\<close>

definition redirectTo :: "platform \<Rightarrow> Location \<Rightarrow> string option \<Rightarrow> error + effect" where
  "redirectTo P loc u =
     (case u of
        Some s \<Rightarrow>
          (if s \<noteq> [] then
             (case URL_new P s of
                Inl e \<Rightarrow> Inl e
              | Inr parsed \<Rightarrow>
                  (if url_hostname parsed = hostname loc
                   then Inr (HistoryPush (url_pathname parsed @ url_search parsed))
                   else Inr (LocationAssign s)))
           else Inl (Error ''Received a redirect without a location header.''))
      | None \<Rightarrow> Inl (Error ''Received a redirect without a location header.''))"

section \<open>fetch (fromServer.js, lines 28-81)\<close>

text \<open>Lines 34-47: the request handed to \<^verbatim>\<open>doFetch\<close>.\<close>

definition fetch_headers :: "platform \<Rightarrow> options \<Rightarrow> (header \<times> string) list" where
  "fetch_headers P opts =
     (let headers = [(REACT_STOREFRONT, ''true''), (API_VERSION, getAPIVersion P)]
      in if onlyHit opts then AList.update CLIENT_IF ''cache-hit'' headers else headers)"

definition fetch_request :: "platform \<Rightarrow> string \<Rightarrow> options \<Rightarrow> Request" where
  "fetch_request P u opts =
     \<lparr> req_url = u,
       req_cache = (case cache opts of
                      None \<Rightarrow> ''default''
                    | Some c \<Rightarrow> if c = [] then ''default'' else c),
       req_credentials = ''include'',
       req_headers = fetch_headers P opts \<rparr>"

text \<open>
  Lines 48-66, the callback on the response. It returns a value at once (undefined
  after a redirect, null for a 204) or the promise of \<^verbatim>\<open>response.json()\<close>, which
  settles later.
\<close>

datatype then_result = Value jsval | JsonPending

definition then_callback ::
  "platform \<Rightarrow> Location \<Rightarrow> bool \<Rightarrow> Response \<Rightarrow> (error + then_result) \<times> effect list" where
  "then_callback P loc originalResponse response =
     (if redirected response then
        (case redirectTo P loc (url response) of
           Inl e \<Rightarrow> (Inl e, [])
         | Inr nav \<Rightarrow>
             (Inr (Value JUndefined),
              nav # (if originalResponse then [MarkRedirected] else [])))
      else
        (Inr (if status response = 204 then Value JNull else JsonPending),
         [ResumePrefetches]))"

text \<open>
  Modelled from the spec: \<^verbatim>\<open>StaleResponseError.is\<close> of \<^verbatim>\<open>../fetchLatest\<close>,
  the test for the deduplicator's distinguishable stale failure.
\<close>

definition StaleResponseError_is :: "error \<Rightarrow> bool" where
  "StaleResponseError_is e = (e = StaleResponseError)"

text \<open>What the resolved or rejected promise of a call carries.\<close>

datatype outcome = Resolved jsval | Rejected error

text \<open>
  Lines 68-80: what the call settles with, from the href read at line 32, the href at
  the time of the check, and the awaited result (\<open>Inl\<close> when the await threw).
\<close>

definition fetch_finish :: "string \<Rightarrow> string \<Rightarrow> error + jsval \<Rightarrow> outcome" where
  "fetch_finish href0 href_now r =
     (case r of
        Inr result \<Rightarrow>
          (if not_nullish result \<and> href_now = href0
           then Resolved (JObj (spread [(''loading'', JBool False)] result))
           else Resolved JUndefined)
      | Inl e \<Rightarrow>
          (if StaleResponseError_is e then Resolved JNull else Rejected e))"

section \<open>Overlapping calls\<close>

text \<open>
  A call of \<^verbatim>\<open>fetch\<close> is suspended twice: until the deduplicated request settles, and
  then (for a body) until \<^verbatim>\<open>response.json()\<close> settles. Between these points other
  calls start and the location changes.
\<close>

datatype call_state =
    Awaiting string bool
  | Parsing string
  | Done outcome

record world =
  nextId :: nat
  location :: Location
  calls :: "nat \<rightharpoonup> call_state"
  log :: "(nat \<times> effect) list"

text \<open>
  Modelled from the spec: \<^verbatim>\<open>fetchLatest\<close> of \<^verbatim>\<open>../fetchLatest\<close>, the request
  deduplicator. Each issue increments the shared generation counter and binds the
  request to that generation; a response that arrives for a generation that is no longer
  the latest is seen by its caller as the stale failure instead of a value. A rejection
  of the transport is passed on as it is. The transport is not aborted: the specification
  leaves that to best effort.
\<close>

definition fetchLatest_settle :: "nat \<Rightarrow> nat \<Rightarrow> error + Response \<Rightarrow> error + Response" where
  "fetchLatest_settle latest generation r =
     (case r of
        Inr response \<Rightarrow> if generation \<noteq> latest then Inl StaleResponseError else Inr response
      | Inl e \<Rightarrow> Inl e)"

text \<open>
  Lines 28-47, up to the await: prefetches are aborted, the href is read, the request is
  issued under the next generation. Line 30 creates the deduplicator once for the module,
  so all calls share the counter \<open>nextId\<close>. The call is known by its generation.
\<close>

definition fetch_start :: "platform \<Rightarrow> string \<Rightarrow> options \<Rightarrow> bool \<Rightarrow> world \<Rightarrow> world" where
  "fetch_start P u opts originalResponse w =
     (let i = Suc (nextId w)
      in w\<lparr> nextId := i,
            calls := (calls w)(i \<mapsto> Awaiting (href (location w)) originalResponse),
            log := log w @ [(i, AbortPrefetches), (i, Dispatch (fetch_request P u opts))] \<rparr>)"

definition finish_call :: "nat \<Rightarrow> string \<Rightarrow> error + jsval \<Rightarrow> world \<Rightarrow> world" where
  "finish_call i href0 r w =
     w\<lparr> calls := (calls w)(i \<mapsto> Done (fetch_finish href0 (href (location w)) r)) \<rparr>"

text \<open>The deduplicated request of call \<open>i\<close> settles with \<open>r\<close>.\<close>

definition request_settles :: "platform \<Rightarrow> nat \<Rightarrow> error + Response \<Rightarrow> world \<Rightarrow> world" where
  "request_settles P i r w =
     (case calls w i of
        Some (Awaiting href0 originalResponse) \<Rightarrow>
          (case fetchLatest_settle (nextId w) i r of
             Inl e \<Rightarrow> finish_call i href0 (Inl e) w
           | Inr response \<Rightarrow>
               (case then_callback P (location w) originalResponse response of
                  (res, effs) \<Rightarrow>
                    (let w' = w\<lparr> log := log w @ map (Pair i) effs \<rparr>
                     in case res of
                          Inl e \<Rightarrow> finish_call i href0 (Inl e) w'
                        | Inr (Value v) \<Rightarrow> finish_call i href0 (Inr v) w'
                        | Inr JsonPending \<Rightarrow> w'\<lparr> calls := (calls w')(i \<mapsto> Parsing href0) \<rparr>)))
      | Some (Parsing href0) \<Rightarrow> w
      | Some (Done out) \<Rightarrow> w
      | None \<Rightarrow> w)"

text \<open>\<^verbatim>\<open>response.json()\<close> of call \<open>i\<close> settles with \<open>r\<close>.\<close>

definition body_settles :: "nat \<Rightarrow> error + jsval \<Rightarrow> world \<Rightarrow> world" where
  "body_settles i r w =
     (case calls w i of
        Some (Parsing href0) \<Rightarrow> finish_call i href0 r w
      | Some (Awaiting href0 originalResponse) \<Rightarrow> w
      | Some (Done out) \<Rightarrow> w
      | None \<Rightarrow> w)"

datatype event =
    Call string options bool
  | Respond nat Response
  | Fail nat error
  | Body nat "error + jsval"
  | Navigate Location

fun step :: "platform \<Rightarrow> event \<Rightarrow> world \<Rightarrow> world" where
  "step P (Call u opts originalResponse) w = fetch_start P u opts originalResponse w"
| "step P (Respond i response) w = request_settles P i (Inr response) w"
| "step P (Fail i e) w = request_settles P i (Inl e) w"
| "step P (Body i r) w = body_settles i r w"
| "step P (Navigate loc) w = w\<lparr> location := loc \<rparr>"

definition run :: "platform \<Rightarrow> event list \<Rightarrow> world \<Rightarrow> world" where
  "run P evs w = fold (step P) evs w"

definition init :: "Location \<Rightarrow> world" where
  "init loc = \<lparr> nextId = 0, location = loc, calls = Map.empty, log = [] \<rparr>"

section \<open>PWA: recording the application state in the history\<close>

text \<open>\<^verbatim>\<open>history.location\<close>; \<open>hash\<close> is \<open>None\<close> when the property is undefined.\<close>

record hloc =
  pathname :: string
  search :: string
  hash :: "string option"

text \<open>The methods of the history object that the code names.\<close>

datatype hist_method = push | replace | go | goBack | goForward

text \<open>
  The part of the heap that \<^verbatim>\<open>PWA\<close> touches: the session history (the entries behind
  the current one, nearest first, the current entry, the entries ahead, nearest first;
  an entry is the path it was written with and its state), the history package's path
  parser, the browser's limit on the size of an entry's state, whether the browser
  refuses every write to the session history, the calls that the unpatched history
  methods have carried out, in order, what \<^verbatim>\<open>app.toJSON()\<close> returns or throws, and
  the warnings on the console.
\<close>

record pwa =
  past :: "(string \<times> jsval) list"
  current :: "string \<times> jsval"
  future :: "(string \<times> jsval) list"
  parsePath :: "string \<Rightarrow> hloc"
  quota :: nat
  writes_refused :: bool
  history_calls :: "(hist_method \<times> jsval list) list"
  app_toJSON :: "error + jsval"
  console :: "string list"

type_synonym hist_fn = "jsval list \<Rightarrow> pwa \<Rightarrow> error + pwa"

text \<open>
  A history object before it is patched, for the concrete runs below: the methods of the
  history package over the browser's session history. The package and the browser are
  not part of the repository; \<open>recordState\<close> and \<open>recordStateOnChange\<close> take the
  history object as an argument and do not depend on this one. A write throws in two
  ways. The browser refuses a state larger than its limit (lines 210-212 of the source
  give the limits); the measure of a state is the number of characters and scalars in
  it. And a browser that refuses writes to the session history throws on every write,
  whatever the state, also for null. The methods are modelled for a path string with an
  optional state and for a numeric delta; other argument shapes are rejected.
\<close>

fun state_size :: "jsval \<Rightarrow> nat" where
  "state_size JUndefined = 0"
| "state_size JNull = 0"
| "state_size (JBool b) = 1"
| "state_size (JNum n) = 1"
| "state_size (JStr s) = length s"
| "state_size (JArr xs) = sum_list (map state_size xs)"
| "state_size (JObj ps) = sum_list (map (\<lambda>p. length (fst p) + state_size (snd p)) ps)"

definition history_replace :: hist_fn where
  "history_replace args w =
     (case args of
        [JStr path, st] \<Rightarrow>
          (if writes_refused w then Inl (DOMException ''SecurityError'')
           else if quota w < state_size st then Inl (DOMException ''DataCloneError'')
           else Inr (w\<lparr> current := (path, st),
                       history_calls := history_calls w @ [(replace, args)] \<rparr>))
      | _ \<Rightarrow> Inl (TypeError ''replace''))"

definition history_push :: hist_fn where
  "history_push args w =
     (case args of
        [JStr path, st] \<Rightarrow>
          (if writes_refused w then Inl (DOMException ''SecurityError'')
           else if quota w < state_size st then Inl (DOMException ''DataCloneError'')
           else Inr (w\<lparr> past := current w # past w, current := (path, st), future := [],
                       history_calls := history_calls w @ [(push, args)] \<rparr>))
      | [JStr path] \<Rightarrow>
          (if writes_refused w then Inl (DOMException ''SecurityError'')
           else Inr (w\<lparr> past := current w # past w, current := (path, JUndefined),
                       future := [], history_calls := history_calls w @ [(push, args)] \<rparr>))
      | _ \<Rightarrow> Inl (TypeError ''push''))"

definition back1 :: "pwa \<Rightarrow> pwa" where
  "back1 w =
     (case past w of
        [] \<Rightarrow> w
      | p # ps \<Rightarrow> w\<lparr> past := ps, current := p, future := current w # future w \<rparr>)"

definition forward1 :: "pwa \<Rightarrow> pwa" where
  "forward1 w =
     (case future w of
        [] \<Rightarrow> w
      | f # fs \<Rightarrow> w\<lparr> past := current w # past w, current := f, future := fs \<rparr>)"

definition history_go_by :: "int \<Rightarrow> pwa \<Rightarrow> pwa" where
  "history_go_by n w =
     (if n < 0 then (if nat (- n) \<le> length (past w) then (back1 ^^ nat (- n)) w else w)
      else (if nat n \<le> length (future w) then (forward1 ^^ nat n) w else w))"

definition history_go :: hist_fn where
  "history_go args w =
     (case args of
        [JNum n] \<Rightarrow>
          Inr ((history_go_by n w)\<lparr> history_calls := history_calls w @ [(go, args)] \<rparr>)
      | _ \<Rightarrow> Inl (TypeError ''go''))"

fun browser_history :: "hist_method \<Rightarrow> hist_fn" where
  "browser_history push = history_push"
| "browser_history replace = history_replace"
| "browser_history go = history_go"
| "browser_history goBack =
     (\<lambda>args w. Inr ((history_go_by (- 1) w)\<lparr> history_calls := history_calls w @ [(goBack, args)] \<rparr>))"
| "browser_history goForward =
     (\<lambda>args w. Inr ((history_go_by 1 w)\<lparr> history_calls := history_calls w @ [(goForward, args)] \<rparr>))"

text \<open>
  Lines 203 and 206: the path that \<^verbatim>\<open>recordState\<close> writes, put together from
  \<^verbatim>\<open>history.location\<close> as the source does: pathname, hash (the empty string when
  undefined), search.
\<close>

definition location_path :: "pwa \<Rightarrow> string" where
  "location_path w =
     (let loc = parsePath w (fst (current w))
      in pathname loc @ (case hash loc of None \<Rightarrow> [] | Some h \<Rightarrow> h) @ search loc)"

text \<open>Lines 214-216: the text of the warning.\<close>

definition recordState_warning :: string where
  "recordState_warning =
     ''Could not record app state in history.  Will fall back to fetching state from the server when navigating back and forward.''"

text \<open>
  \<^verbatim>\<open>PWA.recordState\<close> (lines 201-218), given the \<^verbatim>\<open>replace\<close> method of the history
  object.
\<close>

definition recordState :: "hist_fn \<Rightarrow> pwa \<Rightarrow> error + pwa" where
  "recordState history_replace_fn w =
     (let path = location_path w
      in case (case app_toJSON w of
                 Inl e \<Rightarrow> Inl e
               | Inr snapshot \<Rightarrow> history_replace_fn [JStr path, snapshot] w) of
           Inr w' \<Rightarrow> Inr w'
         | Inl e \<Rightarrow>
             (case history_replace_fn [JStr path, JNull] w of
                Inl e' \<Rightarrow> Inl e'
              | Inr w' \<Rightarrow>
                  Inr (w'\<lparr> console := console w' @ [recordState_warning] \<rparr>)))"

text \<open>
  \<^verbatim>\<open>PWA.recordStateOnChange\<close> (lines 52-61): each of the four methods is replaced by
  a function that records the state and then calls the method it replaced. The
  \<^verbatim>\<open>replace\<close> that \<^verbatim>\<open>recordState\<close> looks up on the history object is the one of
  the object being patched: the loop never assigns it.
\<close>

definition recordStateOnChange :: "(hist_method \<Rightarrow> hist_fn) \<Rightarrow> (hist_method \<Rightarrow> hist_fn)" where
  "recordStateOnChange history =
     fold (\<lambda>method h.
             (let original = h method
              in h(method := (\<lambda>args w.
                     case recordState (h replace) w of
                       Inl e \<Rightarrow> Inl e
                     | Inr w' \<Rightarrow> original args w'))))
          [push, go, goBack, goForward] history"

section \<open>Notions that the properties are stated with\<close>

text \<open>
  The outcome of a call is applied when the call yields a state patch (an object) to its
  caller, or when it navigates on a redirect.
\<close>

definition is_navigation :: "effect \<Rightarrow> bool" where
  "is_navigation eff =
     (case eff of HistoryPush path \<Rightarrow> True | LocationAssign u \<Rightarrow> True | _ \<Rightarrow> False)"

definition yields_patch :: "world \<Rightarrow> nat \<Rightarrow> bool" where
  "yields_patch w i =
     (case calls w i of Some (Done (Resolved (JObj p))) \<Rightarrow> True | _ \<Rightarrow> False)"

definition applied :: "world \<Rightarrow> nat \<Rightarrow> bool" where
  "applied w i =
     (yields_patch w i \<or> list_ex (\<lambda>x. fst x = i \<and> is_navigation (snd x)) (log w))"

definition is_Call :: "event \<Rightarrow> bool" where
  "is_Call e = (case e of Call u opts originalResponse \<Rightarrow> True | _ \<Rightarrow> False)"

text \<open>
  Call \<open>i\<close> was accepted in a run: its response arrived at a moment when \<open>i\<close> was the
  latest generation.
\<close>

definition accepted :: "platform \<Rightarrow> world \<Rightarrow> event list \<Rightarrow> nat \<Rightarrow> bool" where
  "accepted P w0 evs i =
     (\<exists>evs1 r evs2. evs = evs1 @ Respond i r # evs2 \<and> nextId (run P evs1 w0) = i)"

text \<open>
  The origin of the specification's wording: scheme, host and port. The code never
  computes it; \<open>redirectTo\<close> compares hostnames.
\<close>

definition same_origin :: "URL \<Rightarrow> Location \<Rightarrow> bool" where
  "same_origin parsed loc =
     (url_protocol parsed = protocol loc \<and> url_hostname parsed = hostname loc \<and>
      url_port parsed = port loc)"

text \<open>
  The attempt to record the state (line 206) fails, on a history object with the given
  \<^verbatim>\<open>replace\<close>: \<^verbatim>\<open>app.toJSON()\<close> throws, or the write of the snapshot throws.
\<close>

definition recording_fails :: "hist_fn \<Rightarrow> pwa \<Rightarrow> bool" where
  "recording_fails history_replace_fn w =
     (case app_toJSON w of
        Inl e \<Rightarrow> True
      | Inr snapshot \<Rightarrow>
          (case history_replace_fn [JStr (location_path w), snapshot] w of
             Inl e \<Rightarrow> True
           | Inr w' \<Rightarrow> False))"

section \<open>Concrete inputs\<close>

definition shop_location :: Location where
  "shop_location =
     \<lparr> href = ''https://shop.example.com/products/1'', protocol = ''https:'',
       hostname = ''shop.example.com'', port = [] \<rparr>"


definition shop_platform :: platform where
  "shop_platform =
     \<lparr> URL_new = (\<lambda>s.
         if s = ''https://shop.example.com/newpath?ref=1'' then
           Inr \<lparr> url_protocol = ''https:'', url_hostname = ''shop.example.com'', url_port = [],
                 url_pathname = ''/newpath'', url_search = ''?ref=1'', url_hash = [] \<rparr>
         else if s = ''https://shop.example.com:8443/cart?x=1'' then
           Inr \<lparr> url_protocol = ''https:'', url_hostname = ''shop.example.com'',
                 url_port = ''8443'', url_pathname = ''/cart'', url_search = ''?x=1'',
                 url_hash = [] \<rparr>
         else if s = ''https://pay.example.org/checkout'' then
           Inr \<lparr> url_protocol = ''https:'', url_hostname = ''pay.example.org'', url_port = [],
                 url_pathname = ''/checkout'', url_search = [], url_hash = [] \<rparr>
         else Inl (TypeError ''Invalid URL'')),
       getAPIVersion = ''42'' \<rparr>"

definition plain_options :: options where
  "plain_options = \<lparr> cache = None, onlyHit = False \<rparr>"

definition cache_hit_options :: options where
  "cache_hit_options = \<lparr> cache = Some ''force-cache'', onlyHit = True \<rparr>"

definition json_response :: Response where
  "json_response =
     \<lparr> redirected = False, url = Some ''https://shop.example.com/products/1.json'',
       status = 200 \<rparr>"

definition no_content_response :: Response where
  "no_content_response =
     \<lparr> redirected = False, url = Some ''https://shop.example.com/products/1.json'',
       status = 204 \<rparr>"

definition redirect_same_host :: Response where
  "redirect_same_host =
     \<lparr> redirected = True, url = Some ''https://shop.example.com/newpath?ref=1'',
       status = 200 \<rparr>"

definition redirect_other_port :: Response where
  "redirect_other_port =
     \<lparr> redirected = True, url = Some ''https://shop.example.com:8443/cart?x=1'',
       status = 200 \<rparr>"

definition redirect_other_host :: Response where
  "redirect_other_host =
     \<lparr> redirected = True, url = Some ''https://pay.example.org/checkout'', status = 200 \<rparr>"

definition redirect_no_location :: Response where
  "redirect_no_location = \<lparr> redirected = True, url = Some [], status = 200 \<rparr>"

definition product1 :: jsval where
  "product1 = JObj [(''page'', JStr ''Product''), (''id'', JNum 1)]"

definition product2 :: jsval where
  "product2 = JObj [(''page'', JStr ''Product''), (''id'', JNum 2), (''loading'', JBool True)]"

text \<open>One call is in flight.\<close>

definition one_call :: world where
  "one_call = run shop_platform [Call ''/products/1.json'' plain_options True] (init shop_location)"

text \<open>
  The cache lookup of \<^verbatim>\<open>getCachedResponse\<close> and the fetch of \<^verbatim>\<open>fn\<close> for the same
  page, both in flight.
\<close>

definition two_calls :: "event list" where
  "two_calls = [Call ''/products/1.json'' cache_hit_options False,
                Call ''/products/1.json'' plain_options True]"

text \<open>
  Both requests complete in the order they were issued, and the body of the second is
  read.
\<close>

definition completions :: "event list" where
  "completions = [Respond 1 json_response, Respond 2 json_response, Body 2 (Inr product2)]"

text \<open>The response of the one call has arrived and its body is being read.\<close>

definition body_pending :: world where
  "body_pending = step shop_platform (Respond 1 json_response) one_call"


text \<open>
  The second call starts while the body of the first, whose response was the latest
  when it arrived, is still being read.
\<close>

definition superseded_while_parsing :: "event list" where
  "superseded_while_parsing =
     [Call ''/products/1.json'' cache_hit_options False,
      Respond 1 json_response,
      Call ''/products/1.json'' plain_options True,
      Body 1 (Inr product1)]"

text \<open>
  A session history on a browser with a limit of 640 kB, and an application state of
  2 MB.
\<close>

definition small_browser :: pwa where
  "small_browser =
     \<lparr> past = [(''/'', JNull)],
       current = (''/products/1'', JUndefined),
       future = [],
       parsePath = (\<lambda>s. \<lparr> pathname = s, search = [], hash = None \<rparr>),
       quota = 655360,
       writes_refused = False,
       history_calls = [],
       app_toJSON = Inr (JStr (replicate 2097152 CHR ''x'')),
       console = [] \<rparr>"

text \<open>The same history with an application state that fits.\<close>

definition roomy_browser :: pwa where
  "roomy_browser = small_browser \<lparr> app_toJSON := Inr product1 \<rparr>"

text \<open>The same history on a browser that refuses every write to it.\<close>

definition refusing_browser :: pwa where
  "refusing_browser = roomy_browser \<lparr> writes_refused := True \<rparr>"

section \<open>Evaluating the model\<close>

lemmas settle_defs = request_settles_def body_settles_def finish_call_def fetchLatest_settle_def

lemma one_call_eval:
  "nextId one_call = Suc 0"
  "calls one_call (Suc 0) = Some (Awaiting ''https://shop.example.com/products/1'' True)"
  "location one_call = shop_location"
  by (simp_all add: one_call_def run_def init_def fetch_start_def Let_def shop_location_def)

lemma body_pending_eval:
  "calls body_pending (Suc 0) = Some (Parsing ''https://shop.example.com/products/1'')"
  "location body_pending = shop_location"
  by (simp_all add: body_pending_def one_call_eval settle_defs then_callback_def
                    json_response_def Let_def)


lemma run_snoc: "run P (evs @ [e]) w = step P e (run P evs w)"
  by (simp add: run_def)

lemma map_of_fold_update:
  "distinct (map fst ps) \<Longrightarrow>
   map_of (fold (\<lambda>(k, x). AList.update k x) ps t) = map_of t ++ map_of ps"
proof (induction ps arbitrary: t)
  case Nil
  show ?case by simp
next
  case (Cons a ps)
  obtain k x where a: "a = (k, x)" by (cases a)
  from Cons.prems a have k: "k \<notin> dom (map_of ps)" and d: "distinct (map fst ps)"
    by (auto simp: dom_map_of_conv_image_fst)
  have u: "map_of (AList.update k x t) = (map_of t)(k \<mapsto> x)"
    by (rule update_conv')
  have "map_of (fold (\<lambda>(k, x). AList.update k x) (a # ps) t)
          = map_of (fold (\<lambda>(k, x). AList.update k x) ps (AList.update k x t))"
    using a by simp
  also have "\<dots> = map_of (AList.update k x t) ++ map_of ps"
    by (rule Cons.IH [OF d])
  also have "\<dots> = (map_of t)(k \<mapsto> x) ++ map_of ps"
    by (simp only: u)
  also have "\<dots> = map_of t ++ map_of (a # ps)"
    using k a by (simp add: map_add_upd_left)
  finally show ?case .
qed

lemma map_of_spread:
  "distinct (map fst (own_props v)) \<Longrightarrow>
   map_of (spread t v) = map_of t ++ map_of (own_props v)"
  by (simp add: spread_def map_of_fold_update)

lemma recordStateOnChange_wrapped:
  "m \<in> {push, go, goBack, goForward} \<Longrightarrow>
   recordStateOnChange history m args w =
     (case recordState (history replace) w of Inl e \<Rightarrow> Inl e | Inr w' \<Rightarrow> history m args w')"
  by (cases "recordState (history replace) w") (auto simp: recordStateOnChange_def Let_def)

lemma recordStateOnChange_replace: "recordStateOnChange history replace = history replace"
  by (simp add: recordStateOnChange_def Let_def)

section \<open>Only the latest request is honoured\<close>

lemma fetch_finish_nullish:
  "\<not> not_nullish v \<Longrightarrow> fetch_finish h l (Inr v) = Resolved JUndefined"
  by (simp add: fetch_finish_def)

lemma fetch_finish_error_no_patch: "fetch_finish h l (Inl e) \<noteq> Resolved (JObj p)"
  by (simp add: fetch_finish_def)

lemma then_callback_value:
  "then_callback P loc orig r = (Inr (Value v), effs) \<Longrightarrow> \<not> not_nullish v"
  by (auto simp: then_callback_def not_nullish_def split: if_splits sum.splits)

lemma step_Parsing:
  assumes "calls (step P e w) i = Some (Parsing h)"
  shows "calls w i = Some (Parsing h) \<or>
         (\<exists>r orig. e = Respond i r \<and> calls w i = Some (Awaiting h orig) \<and> nextId w = i)"
proof (cases e)
  case (Call u opts orig)
  with assms show ?thesis
    by (auto simp: fetch_start_def Let_def split: if_splits)
next
  case (Respond j r)
  with assms show ?thesis
    by (auto simp: settle_defs Let_def
             split: option.splits call_state.splits if_splits sum.splits prod.splits
                    then_result.splits)
next
  case (Fail j x)
  with assms show ?thesis
    by (auto simp: settle_defs Let_def split: option.splits call_state.splits if_splits)
next
  case (Body j r)
  with assms show ?thesis
    by (auto simp: settle_defs split: option.splits call_state.splits if_splits)
next
  case (Navigate l)
  with assms show ?thesis by simp
qed

lemma step_patch:
  assumes "calls (step P e w) i = Some (Done (Resolved (JObj p)))"
  shows "calls w i = Some (Done (Resolved (JObj p))) \<or> (\<exists>h. calls w i = Some (Parsing h))"
proof (cases e)
  case (Call u opts orig)
  with assms show ?thesis
    by (auto simp: fetch_start_def Let_def split: if_splits)
next
  case (Respond j r)
  with assms show ?thesis
    by (auto simp: settle_defs Let_def fetch_finish_error_no_patch fetch_finish_nullish
             dest: then_callback_value
             split: option.splits call_state.splits if_splits sum.splits prod.splits
                    then_result.splits)
next
  case (Fail j x)
  with assms show ?thesis
    by (auto simp: settle_defs Let_def fetch_finish_error_no_patch
             split: option.splits call_state.splits if_splits)
next
  case (Body j r)
  with assms show ?thesis
    by (auto simp: settle_defs split: option.splits call_state.splits if_splits)
next
  case (Navigate l)
  with assms show ?thesis by simp
qed

lemma step_navigation:
  assumes "(i, eff) \<in> set (log (step P e w))" and "is_navigation eff"
  shows "(i, eff) \<in> set (log w) \<or>
         (\<exists>r h orig. e = Respond i r \<and> calls w i = Some (Awaiting h orig) \<and> nextId w = i)"
proof (cases e)
  case (Call u opts orig)
  with assms show ?thesis
    by (auto simp: fetch_start_def Let_def is_navigation_def)
next
  case (Respond j r)
  with assms show ?thesis
    by (auto simp: settle_defs Let_def
             split: option.splits call_state.splits if_splits sum.splits prod.splits
                    then_result.splits)
next
  case (Fail j x)
  with assms show ?thesis
    by (auto simp: settle_defs Let_def split: option.splits call_state.splits if_splits)
next
  case (Body j r)
  with assms show ?thesis
    by (auto simp: settle_defs split: option.splits call_state.splits if_splits)
next
  case (Navigate l)
  with assms show ?thesis by simp
qed

lemma accepted_snoc: "accepted P w0 evs i \<Longrightarrow> accepted P w0 (evs @ [e]) i"
  unfolding accepted_def by (metis append_Cons append_assoc)

lemma accepted_now:
  "nextId (run P evs w0) = i \<Longrightarrow> accepted P w0 (evs @ [Respond i r]) i"
  unfolding accepted_def by blast

lemma accepted_invariant:
  "(\<forall>h. calls (run P evs (init loc)) i = Some (Parsing h) \<longrightarrow> accepted P (init loc) evs i) \<and>
   (\<forall>p. calls (run P evs (init loc)) i = Some (Done (Resolved (JObj p))) \<longrightarrow>
        accepted P (init loc) evs i) \<and>
   (\<forall>eff. (i, eff) \<in> set (log (run P evs (init loc))) \<longrightarrow> is_navigation eff \<longrightarrow>
        accepted P (init loc) evs i)"
proof (induction evs rule: rev_induct)
  case Nil
  show ?case by (simp add: run_def init_def)
next
  case (snoc e evs)
  let ?w = "run P evs (init loc)"
  have parsing: "accepted P (init loc) (evs @ [e]) i"
    if "calls (step P e ?w) i = Some (Parsing h)" for h
    using step_Parsing [OF that] snoc.IH accepted_snoc accepted_now by blast
  have patch: "accepted P (init loc) (evs @ [e]) i"
    if "calls (step P e ?w) i = Some (Done (Resolved (JObj p)))" for p
    using step_patch [OF that] snoc.IH accepted_snoc by blast
  have nav: "accepted P (init loc) (evs @ [e]) i"
    if "(i, eff) \<in> set (log (step P e ?w))" and "is_navigation eff" for eff
    using step_navigation [OF that] snoc.IH accepted_snoc accepted_now that(2) by blast
  show ?case
    using parsing patch nav by (simp add: run_snoc)
qed

lemma nextId_run: "nextId (run P evs w) = nextId w + length (filter is_Call evs)"
proof (induction evs rule: rev_induct)
  case Nil
  show ?case by (simp add: run_def)
next
  case (snoc e evs)
  show ?case
  proof (cases e)
    case (Call u opts orig)
    with snoc show ?thesis by (simp add: run_snoc fetch_start_def Let_def is_Call_def)
  next
    case (Respond j r)
    with snoc show ?thesis
      by (auto simp: run_snoc settle_defs Let_def is_Call_def
               split: option.splits call_state.splits sum.splits prod.splits then_result.splits)
  next
    case (Fail j x)
    with snoc show ?thesis
      by (auto simp: run_snoc settle_defs Let_def is_Call_def
               split: option.splits call_state.splits sum.splits prod.splits then_result.splits)
  next
    case (Body j r)
    with snoc show ?thesis
      by (auto simp: run_snoc settle_defs is_Call_def split: option.splits call_state.splits)
  next
    case (Navigate l)
    with snoc show ?thesis by (simp add: run_snoc is_Call_def)
  qed
qed

lemma applied_accepted:
  assumes "applied (run P evs (init loc)) i"
  shows "accepted P (init loc) evs i"
proof -
  from assms consider
      p where "calls (run P evs (init loc)) i = Some (Done (Resolved (JObj p)))"
    | eff where "(i, eff) \<in> set (log (run P evs (init loc)))" and "is_navigation eff"
    by (auto simp: applied_def yields_patch_def list_ex_iff
             split: option.splits call_state.splits outcome.splits jsval.splits)
  then show ?thesis
    using accepted_invariant [of P evs loc i] by cases blast+
qed

lemma prefix_of_calls:
  assumes "cs @ rest = evs1 @ x # evs2" and "list_all is_Call cs"
    and "list_all (\<lambda>e. \<not> is_Call e) rest" and "\<not> is_Call x"
  shows "length (filter is_Call evs1) = length cs"
  using assms
proof (induction cs arbitrary: evs1)
  case Nil
  then have "list_all (\<lambda>e. \<not> is_Call e) evs1" by simp
  then have "filter is_Call evs1 = []" by (simp add: list_all_iff)
  then show ?case by simp
next
  case (Cons c cs)
  show ?case
  proof (cases evs1)
    case Nil
    with Cons.prems show ?thesis by simp
  next
    case (Cons e evs1')
    with Cons.prems Cons.IH [of evs1'] show ?thesis by simp
  qed
qed

text \<open>
  C1, as the code has it. In every run from the initial world, whatever the order of calls,
  responses, bodies and location changes: a call whose outcome is applied (it yields a
  state patch, or it navigates on a redirect) was the call of the highest generation at
  the moment its response arrived. In particular, when all calls are issued before any
  request settles, only the last of them can have its outcome applied. A response that
  arrives for a call that is no longer the latest is discarded: the call resolves with
  null and nothing else happens. The deduplicator is the one of the specification
  (section 4.1).
\<close>
theorem only_latest_at_response_is_applied:
  "(applied (run P evs (init loc)) i \<longrightarrow>
      (\<exists>evs1 r evs2. evs = evs1 @ Respond i r # evs2 \<and> nextId (run P evs1 (init loc)) = i)) \<and>
   (list_all is_Call cs \<and> list_all (\<lambda>e. \<not> is_Call e) rest \<and>
    applied (run P (cs @ rest) (init loc)) i \<longrightarrow> i = length cs) \<and>
   (calls w j = Some (Awaiting href0 orig) \<and> nextId w \<noteq> j \<longrightarrow>
      step P (Respond j response) w = w\<lparr> calls := (calls w)(j \<mapsto> Done (Resolved JNull)) \<rparr>)"
proof (intro conjI impI)
  assume "applied (run P evs (init loc)) i"
  then show "\<exists>evs1 r evs2. evs = evs1 @ Respond i r # evs2 \<and> nextId (run P evs1 (init loc)) = i"
    using applied_accepted accepted_def by blast
next
  assume a: "list_all is_Call cs \<and> list_all (\<lambda>e. \<not> is_Call e) rest \<and>
    applied (run P (cs @ rest) (init loc)) i"
  then obtain evs1 r evs2 where d: "cs @ rest = evs1 @ Respond i r # evs2"
    and n: "nextId (run P evs1 (init loc)) = i"
    using applied_accepted accepted_def by blast
  have "length (filter is_Call evs1) = length cs"
    using prefix_of_calls [OF d] a by (simp add: is_Call_def)
  with n show "i = length cs"
    by (simp add: nextId_run init_def)
next
  assume "calls w j = Some (Awaiting href0 orig) \<and> nextId w \<noteq> j"
  then show "step P (Respond j response) w =
      w\<lparr> calls := (calls w)(j \<mapsto> Done (Resolved JNull)) \<rparr>"
    by (simp add: settle_defs fetch_finish_def StaleResponseError_is_def)
qed

theorem only_latest_at_response_is_applied_witness:
  "applied (run shop_platform (two_calls @ completions) (init shop_location)) 2 \<and>
   list_all is_Call two_calls \<and> list_all (\<lambda>e. \<not> is_Call e) completions \<and>
   (\<exists>evs1 r evs2. two_calls @ completions = evs1 @ Respond 2 r # evs2 \<and>
      nextId (run shop_platform evs1 (init shop_location)) = 2) \<and>
   2 = length two_calls \<and>
   calls (run shop_platform two_calls (init shop_location)) 1
     = Some (Awaiting ''https://shop.example.com/products/1'' False) \<and>
   nextId (run shop_platform two_calls (init shop_location)) \<noteq> 1 \<and>
   step shop_platform (Respond 1 json_response) (run shop_platform two_calls (init shop_location))
     = (run shop_platform two_calls (init shop_location))
         \<lparr> calls := (calls (run shop_platform two_calls (init shop_location)))
                    (1 \<mapsto> Done (Resolved JNull)) \<rparr>"
proof -
  let ?w = "run shop_platform (two_calls @ completions) (init shop_location)"
  let ?v = "run shop_platform two_calls (init shop_location)"
  have c: "calls ?w 2 = Some (Done (Resolved (JObj
             [(''loading'', JBool True), (''page'', JStr ''Product''), (''id'', JNum 2)])))"
    by (simp add: two_calls_def completions_def run_def init_def fetch_start_def Let_def
                  shop_location_def settle_defs then_callback_def json_response_def
                  fetch_finish_def not_nullish_def product2_def spread_def
                  StaleResponseError_is_def)
  have a: "applied ?w 2"
    by (simp add: applied_def yields_patch_def c)
  have l: "list_all is_Call two_calls \<and> list_all (\<lambda>e. \<not> is_Call e) completions"
    by (simp add: two_calls_def completions_def is_Call_def)
  have s: "calls ?v 1 = Some (Awaiting ''https://shop.example.com/products/1'' False) \<and>
           nextId ?v \<noteq> 1"
    by (simp add: two_calls_def run_def init_def fetch_start_def Let_def shop_location_def)
  show ?thesis
    using a l s
      only_latest_at_response_is_applied [of shop_platform "two_calls @ completions"
        shop_location 2 two_calls completions ?v 1
        "''https://shop.example.com/products/1''" False json_response]
    by simp
qed

text \<open>
  C1 as stated fails: a call whose response was accepted and whose body is still being
  read when the next call is issued from the same page yields its patch, although it no
  longer has the highest generation.
\<close>

theorem superseded_while_parsing_counterexample:
  "applied (run shop_platform superseded_while_parsing (init shop_location)) 1 \<and>
   calls (run shop_platform superseded_while_parsing (init shop_location)) 1
     = Some (Done (Resolved (JObj
         [(''loading'', JBool False), (''page'', JStr ''Product''), (''id'', JNum 1)]))) \<and>
   nextId (run shop_platform superseded_while_parsing (init shop_location)) = 2 \<and>
   calls (run shop_platform superseded_while_parsing (init shop_location)) 2
     = Some (Awaiting ''https://shop.example.com/products/1'' True)"
  by (simp add: superseded_while_parsing_def run_def init_def fetch_start_def Let_def
                shop_location_def settle_defs then_callback_def json_response_def
                fetch_finish_def not_nullish_def product1_def spread_def
                applied_def yields_patch_def)

section \<open>The location check\<close>




section \<open>Redirects\<close>

text \<open>
  C3, as the code has it. A redirect target that parses and has the hostname of the app
  (so every same-origin target) is pushed on the history as pathname + search, and
  \<^verbatim>\<open>location.assign\<close> is not called; a target with another hostname is handed to
  \<^verbatim>\<open>location.assign\<close>. For the latest call these are the effects of the redirected
  response, followed by the mark on the original response when there is one.
\<close>

theorem redirect_by_hostname:
  "URL_new P s = Inr parsed \<and> s \<noteq> [] \<longrightarrow>
     redirectTo P loc (Some s) =
       Inr (if url_hostname parsed = hostname loc
            then HistoryPush (url_pathname parsed @ url_search parsed)
            else LocationAssign s) \<and>
     (same_origin parsed loc \<longrightarrow>
        redirectTo P loc (Some s) = Inr (HistoryPush (url_pathname parsed @ url_search parsed))) \<and>
     (calls w i = Some (Awaiting href0 orig) \<and> nextId w = i \<and> redirected response \<and>
      url response = Some s \<longrightarrow>
        log (step P (Respond i response) w) =
          log w @ (i, if url_hostname parsed = hostname (location w)
                      then HistoryPush (url_pathname parsed @ url_search parsed)
                      else LocationAssign s)
                # (if orig then [(i, MarkRedirected)] else []))"
  by (auto simp: redirectTo_def same_origin_def settle_defs then_callback_def)

theorem redirect_by_hostname_witness:
  "URL_new shop_platform ''https://shop.example.com/newpath?ref=1'' =
     Inr \<lparr> url_protocol = ''https:'', url_hostname = ''shop.example.com'', url_port = [],
           url_pathname = ''/newpath'', url_search = ''?ref=1'', url_hash = [] \<rparr> \<and>
   same_origin \<lparr> url_protocol = ''https:'', url_hostname = ''shop.example.com'', url_port = [],
           url_pathname = ''/newpath'', url_search = ''?ref=1'', url_hash = [] \<rparr> shop_location \<and>
   redirectTo shop_platform shop_location (Some ''https://shop.example.com/newpath?ref=1'')
     = Inr (HistoryPush ''/newpath?ref=1'') \<and>
   calls one_call 1 = Some (Awaiting ''https://shop.example.com/products/1'' True) \<and>
   nextId one_call = 1 \<and> redirected redirect_same_host \<and>
   url redirect_same_host = Some ''https://shop.example.com/newpath?ref=1'' \<and>
   log (step shop_platform (Respond 1 redirect_same_host) one_call)
     = log one_call @ [(1, HistoryPush ''/newpath?ref=1''), (1, MarkRedirected)] \<and>
   URL_new shop_platform ''https://pay.example.org/checkout'' =
     Inr \<lparr> url_protocol = ''https:'', url_hostname = ''pay.example.org'', url_port = [],
           url_pathname = ''/checkout'', url_search = [], url_hash = [] \<rparr> \<and>
   redirectTo shop_platform shop_location (Some ''https://pay.example.org/checkout'')
     = Inr (LocationAssign ''https://pay.example.org/checkout'')"
  using
    redirect_by_hostname [of shop_platform "''https://shop.example.com/newpath?ref=1''"
      "\<lparr> url_protocol = ''https:'', url_hostname = ''shop.example.com'', url_port = [],
         url_pathname = ''/newpath'', url_search = ''?ref=1'', url_hash = [] \<rparr>"
      shop_location one_call 1 "''https://shop.example.com/products/1''" True redirect_same_host]
    redirect_by_hostname [of shop_platform "''https://pay.example.org/checkout''"
      "\<lparr> url_protocol = ''https:'', url_hostname = ''pay.example.org'', url_port = [],
         url_pathname = ''/checkout'', url_search = [], url_hash = [] \<rparr>"
      shop_location one_call 1 "''https://shop.example.com/products/1''" True redirect_other_host]
  by (simp add: shop_platform_def shop_location_def same_origin_def one_call_eval
                redirect_same_host_def redirect_other_host_def)

text \<open>
  C3 as stated fails: a target on the same host and another port is cross-origin, and it
  is pushed on the history, not assigned.
\<close>

theorem cross_origin_same_host_counterexample:
  "URL_new shop_platform ''https://shop.example.com:8443/cart?x=1'' =
     Inr \<lparr> url_protocol = ''https:'', url_hostname = ''shop.example.com'', url_port = ''8443'',
           url_pathname = ''/cart'', url_search = ''?x=1'', url_hash = [] \<rparr> \<and>
   \<not> same_origin \<lparr> url_protocol = ''https:'', url_hostname = ''shop.example.com'',
           url_port = ''8443'', url_pathname = ''/cart'', url_search = ''?x=1'',
           url_hash = [] \<rparr> shop_location \<and>
   redirectTo shop_platform shop_location (Some ''https://shop.example.com:8443/cart?x=1'')
     = Inr (HistoryPush ''/cart?x=1'') \<and>
   log (step shop_platform (Respond 1 redirect_other_port) one_call)
     = log one_call @ [(1, HistoryPush ''/cart?x=1''), (1, MarkRedirected)]"
  by (simp add: shop_platform_def shop_location_def same_origin_def redirectTo_def
                one_call_eval redirect_other_port_def settle_defs then_callback_def)

text \<open>
  C6. \<open>redirectTo\<close> throws on an absent or empty url; a redirected response with such a
  url, arriving for the latest call, rejects the call with that error and has no other
  effect: nothing is pushed, assigned, marked, resumed or retried.
\<close>

theorem redirect_without_location_throws:
  "(u = None \<or> u = Some [] \<longrightarrow>
      redirectTo P loc u = Inl (Error ''Received a redirect without a location header.'')) \<and>
   (calls w i = Some (Awaiting href0 orig) \<and> nextId w = i \<and> redirected response \<and>
    (url response = None \<or> url response = Some []) \<longrightarrow>
      step P (Respond i response) w =
        w\<lparr> calls := (calls w)(i \<mapsto>
             Done (Rejected (Error ''Received a redirect without a location header.''))) \<rparr>)"
  by (auto simp: redirectTo_def settle_defs then_callback_def fetch_finish_def
                 StaleResponseError_is_def)

theorem redirect_without_location_throws_witness:
  "redirectTo shop_platform shop_location (Some [])
     = Inl (Error ''Received a redirect without a location header.'') \<and>
   calls one_call 1 = Some (Awaiting ''https://shop.example.com/products/1'' True) \<and>
   nextId one_call = 1 \<and> redirected redirect_no_location \<and>
   url redirect_no_location = Some [] \<and>
   step shop_platform (Respond 1 redirect_no_location) one_call =
     one_call\<lparr> calls := (calls one_call)(1 \<mapsto>
       Done (Rejected (Error ''Received a redirect without a location header.''))) \<rparr>"
  using redirect_without_location_throws [of "Some []" shop_platform shop_location one_call 1
      "''https://shop.example.com/products/1''" True redirect_no_location]
  by (simp add: one_call_eval redirect_no_location_def)

section \<open>No content\<close>

text \<open>
  C4, as the code has it. For a 204 that is not redirected, the callback on the response
  returns exactly null; the guard at line 68 then fails and the call falls through to the
  end of the function: it resolves with undefined, never with an object.
\<close>

theorem no_content_yields_undefined:
  "calls w i = Some (Awaiting href0 orig) \<and> nextId w = i \<and>
   \<not> redirected response \<and> status response = 204 \<longrightarrow>
     fst (then_callback P (location w) orig response) = Inr (Value JNull) \<and>
     calls (step P (Respond i response) w) i = Some (Done (Resolved JUndefined))"
  by (simp add: settle_defs then_callback_def fetch_finish_def not_nullish_def)

theorem no_content_yields_undefined_witness:
  "calls one_call 1 = Some (Awaiting ''https://shop.example.com/products/1'' True) \<and>
   nextId one_call = 1 \<and> \<not> redirected no_content_response \<and>
   status no_content_response = 204 \<and>
   fst (then_callback shop_platform (location one_call) True no_content_response)
     = Inr (Value JNull) \<and>
   calls (step shop_platform (Respond 1 no_content_response) one_call) 1
     = Some (Done (Resolved JUndefined))"
  using no_content_yields_undefined [of one_call 1 "''https://shop.example.com/products/1''"
      True no_content_response shop_platform]
  by (simp add: one_call_eval no_content_response_def)

text \<open>
  C4 as stated fails: with the location unchanged, the call that receives a 204 does not
  resolve with null.
\<close>

theorem no_content_not_null_counterexample:
  "status no_content_response = 204 \<and>
   href (location (step shop_platform (Respond 1 no_content_response) one_call))
     = href shop_location \<and>
   calls (step shop_platform (Respond 1 no_content_response) one_call) 1
     = Some (Done (Resolved JUndefined)) \<and>
   calls (step shop_platform (Respond 1 no_content_response) one_call) 1
     \<noteq> Some (Done (Resolved JNull))"
  by (simp add: one_call_eval no_content_response_def settle_defs then_callback_def
                fetch_finish_def not_nullish_def)

section \<open>Errors\<close>

text \<open>
  C5. When the deduplicated request of a call rejects with the stale-response signal,
  as it does for a response that arrives after a newer request was issued, the call
  resolves with null. Every other error that the request rejects with, that
  \<^verbatim>\<open>response.json()\<close> rejects with or that \<open>redirectTo\<close> throws is the rejection
  of the call, unchanged.
\<close>

theorem fetch_swallows_stale_only:
  "(calls w i = Some (Awaiting href0 orig) \<longrightarrow>
      (nextId w \<noteq> i \<longrightarrow>
         calls (step P (Respond i response) w) i = Some (Done (Resolved JNull))) \<and>
      calls (step P (Fail i e) w) i =
        Some (Done (if StaleResponseError_is e then Resolved JNull else Rejected e))) \<and>
   (calls w' j = Some (Parsing href1) \<longrightarrow>
      calls (step P (Body j (Inl e')) w') j =
        Some (Done (if StaleResponseError_is e' then Resolved JNull else Rejected e'))) \<and>
   (calls w2 k = Some (Awaiting href2 orig2) \<and> nextId w2 = k \<and> redirected response2 \<and>
    redirectTo P (location w2) (url response2) = Inl e2 \<longrightarrow>
      calls (step P (Respond k response2) w2) k =
        Some (Done (if StaleResponseError_is e2 then Resolved JNull else Rejected e2)))"
  by (simp add: settle_defs fetch_finish_def then_callback_def StaleResponseError_is_def)

theorem fetch_swallows_stale_only_witness:
  "calls (run shop_platform two_calls (init shop_location)) 1
     = Some (Awaiting ''https://shop.example.com/products/1'' False) \<and>
   nextId (run shop_platform two_calls (init shop_location)) \<noteq> 1 \<and>
   calls (step shop_platform (Respond 1 json_response)
           (run shop_platform two_calls (init shop_location))) 1 = Some (Done (Resolved JNull)) \<and>
   calls (step shop_platform (Fail 1 (TypeError ''Failed to fetch''))
           (run shop_platform two_calls (init shop_location))) 1
     = Some (Done (Rejected (TypeError ''Failed to fetch''))) \<and>
   calls body_pending 1 = Some (Parsing ''https://shop.example.com/products/1'') \<and>
   calls (step shop_platform (Body 1 (Inl (SyntaxError ''Unexpected token''))) body_pending) 1
     = Some (Done (Rejected (SyntaxError ''Unexpected token''))) \<and>
   calls one_call 1 = Some (Awaiting ''https://shop.example.com/products/1'' True) \<and>
   nextId one_call = 1 \<and> redirected redirect_no_location \<and>
   redirectTo shop_platform (location one_call) (url redirect_no_location)
     = Inl (Error ''Received a redirect without a location header.'') \<and>
   calls (step shop_platform (Respond 1 redirect_no_location) one_call) 1
     = Some (Done (Rejected (Error ''Received a redirect without a location header.'')))"
proof -
  let ?w = "run shop_platform two_calls (init shop_location)"
  have a: "calls ?w 1 = Some (Awaiting ''https://shop.example.com/products/1'' False)"
    by (simp add: two_calls_def run_def init_def fetch_start_def Let_def shop_location_def)
  have n: "nextId ?w \<noteq> 1"
    by (simp add: two_calls_def run_def init_def fetch_start_def Let_def)
  have b: "calls body_pending 1 = Some (Parsing ''https://shop.example.com/products/1'')"
    by (simp add: body_pending_eval)
  have r: "calls one_call 1 = Some (Awaiting ''https://shop.example.com/products/1'' True) \<and>
     nextId one_call = 1 \<and> redirected redirect_no_location \<and>
     redirectTo shop_platform (location one_call) (url redirect_no_location)
       = Inl (Error ''Received a redirect without a location header.'')"
    by (simp add: one_call_eval redirect_no_location_def redirectTo_def)
  show ?thesis
    using a n b r
      fetch_swallows_stale_only [of ?w 1 "''https://shop.example.com/products/1''" False
        shop_platform json_response "TypeError ''Failed to fetch''" body_pending 1
        "''https://shop.example.com/products/1''" "SyntaxError ''Unexpected token''"
        one_call 1 "''https://shop.example.com/products/1''" True redirect_no_location
        "Error ''Received a redirect without a location header.''"]
    by (simp add: StaleResponseError_is_def)
qed

section \<open>Prefetches\<close>

text \<open>
  C7, as the code has it. Every call aborts the prefetches and then dispatches its
  request, in this order, and does nothing else before it awaits. Prefetching is resumed
  when the response of the latest call has arrived and is not a redirect; for a
  redirected response it is not resumed.
\<close>

theorem abort_before_dispatch_resume_on_response:
  "log (step P (Call u opts orig) w0) =
     log w0 @ [(Suc (nextId w0), AbortPrefetches),
               (Suc (nextId w0), Dispatch (fetch_request P u opts))] \<and>
   (calls w i = Some (Awaiting href0 orig') \<and> nextId w = i \<longrightarrow>
      (\<not> redirected response \<longrightarrow>
         log (step P (Respond i response) w) = log w @ [(i, ResumePrefetches)]) \<and>
      (redirected response \<longrightarrow>
         (\<exists>effs. log (step P (Respond i response) w) = log w @ map (Pair i) effs \<and>
                 ResumePrefetches \<notin> set effs)))"
proof (intro conjI impI)
  show "log (step P (Call u opts orig) w0) =
     log w0 @ [(Suc (nextId w0), AbortPrefetches),
               (Suc (nextId w0), Dispatch (fetch_request P u opts))]"
    by (simp add: fetch_start_def Let_def)
next
  assume "calls w i = Some (Awaiting href0 orig') \<and> nextId w = i" and "\<not> redirected response"
  then show "log (step P (Respond i response) w) = log w @ [(i, ResumePrefetches)]"
    by (simp add: settle_defs then_callback_def)
next
  assume a: "calls w i = Some (Awaiting href0 orig') \<and> nextId w = i" and r: "redirected response"
  show "\<exists>effs. log (step P (Respond i response) w) = log w @ map (Pair i) effs \<and>
                 ResumePrefetches \<notin> set effs"
  proof (cases "redirectTo P (location w) (url response)")
    case (Inl e)
    with a r have "log (step P (Respond i response) w) = log w @ map (Pair i) []"
      by (simp add: settle_defs then_callback_def)
    then show ?thesis by fastforce
  next
    case (Inr nav)
    then have n: "nav \<noteq> ResumePrefetches"
      by (auto simp: redirectTo_def split: option.splits if_splits sum.splits)
    from Inr a r have "log (step P (Respond i response) w) =
        log w @ map (Pair i) (nav # (if orig' then [MarkRedirected] else []))"
      by (simp add: settle_defs then_callback_def)
    moreover have "ResumePrefetches \<notin> set (nav # (if orig' then [MarkRedirected] else []))"
      using n by simp
    ultimately show ?thesis by blast
  qed
qed

theorem abort_before_dispatch_resume_on_response_witness:
  "log (step shop_platform (Call ''/products/1.json'' plain_options True) (init shop_location))
     = [(1, AbortPrefetches),
        (1, Dispatch \<lparr> req_url = ''/products/1.json'', req_cache = ''default'',
                       req_credentials = ''include'',
                       req_headers = [(REACT_STOREFRONT, ''true''), (API_VERSION, ''42'')] \<rparr>)] \<and>
   calls one_call 1 = Some (Awaiting ''https://shop.example.com/products/1'' True) \<and>
   nextId one_call = 1 \<and> \<not> redirected json_response \<and>
   log (step shop_platform (Respond 1 json_response) one_call)
     = log one_call @ [(1, ResumePrefetches)] \<and>
   redirected redirect_same_host \<and>
   (\<exists>effs. log (step shop_platform (Respond 1 redirect_same_host) one_call)
             = log one_call @ map (Pair 1) effs \<and> ResumePrefetches \<notin> set effs)"
  using
    abort_before_dispatch_resume_on_response [of shop_platform "''/products/1.json''"
      plain_options True "init shop_location" one_call 1
      "''https://shop.example.com/products/1''" True json_response]
    abort_before_dispatch_resume_on_response [of shop_platform "''/products/1.json''"
      plain_options True "init shop_location" one_call 1
      "''https://shop.example.com/products/1''" True redirect_same_host]
  by (simp add: one_call_eval json_response_def redirect_same_host_def init_def
                fetch_request_def fetch_headers_def plain_options_def shop_platform_def)

text \<open>
  C7 as stated fails: after the dispatch the prefetches are still aborted, and a
  redirected response settles the call without resuming them.
\<close>

theorem no_resume_on_redirect_counterexample:
  "log one_call
     = [(1, AbortPrefetches),
        (1, Dispatch (fetch_request shop_platform ''/products/1.json'' plain_options))] \<and>
   redirected redirect_same_host \<and>
   log (step shop_platform (Respond 1 redirect_same_host) one_call)
     = [(1, AbortPrefetches),
        (1, Dispatch (fetch_request shop_platform ''/products/1.json'' plain_options)),
        (1, HistoryPush ''/newpath?ref=1''), (1, MarkRedirected)] \<and>
   calls (step shop_platform (Respond 1 redirect_same_host) one_call) 1
     = Some (Done (Resolved JUndefined))"
proof -
  have l: "log one_call = [(1, AbortPrefetches),
        (1, Dispatch (fetch_request shop_platform ''/products/1.json'' plain_options))]"
    by (simp add: one_call_def run_def init_def fetch_start_def Let_def)
  have u: "URL_new shop_platform ''https://shop.example.com/newpath?ref=1'' =
     Inr \<lparr> url_protocol = ''https:'', url_hostname = ''shop.example.com'', url_port = [],
           url_pathname = ''/newpath'', url_search = ''?ref=1'', url_hash = [] \<rparr>"
    by (simp add: shop_platform_def)
  show ?thesis
    unfolding l
    by (simp add: one_call_eval l u redirect_same_host_def settle_defs then_callback_def
                  redirectTo_def shop_location_def fetch_finish_def not_nullish_def)
qed

section \<open>The patch\<close>

text \<open>
  C10. When the body of a call arrives with the location unchanged and the body is a
  value other than null whose keys are distinct, the call resolves with an object whose
  properties are those of the body over \<^verbatim>\<open>loading: false\<close>: \<^verbatim>\<open>loading\<close> is false
  unless the body has its own \<^verbatim>\<open>loading\<close>, which then wins.
\<close>

theorem patch_has_loading_false_beneath_response:
  "calls w i = Some (Parsing href0) \<and> href (location w) = href0 \<and> not_nullish body \<and>
   distinct (map fst (own_props body)) \<longrightarrow>
     (\<exists>p. calls (step P (Body i (Inr body)) w) i = Some (Done (Resolved (JObj p))) \<and>
          map_of p = [''loading'' \<mapsto> JBool False] ++ map_of (own_props body) \<and>
          map_of p ''loading'' =
            Some (case map_of (own_props body) ''loading'' of
                    None \<Rightarrow> JBool False | Some v \<Rightarrow> v))"
proof (intro impI)
  assume a: "calls w i = Some (Parsing href0) \<and> href (location w) = href0 \<and> not_nullish body \<and>
   distinct (map fst (own_props body))"
  let ?p = "spread [(''loading'', JBool False)] body"
  have 1: "calls (step P (Body i (Inr body)) w) i = Some (Done (Resolved (JObj ?p)))"
    using a by (simp add: settle_defs fetch_finish_def)
  have 2: "map_of ?p = [''loading'' \<mapsto> JBool False] ++ map_of (own_props body)"
    using a by (simp add: map_of_spread)
  have 3: "map_of ?p ''loading'' =
            Some (case map_of (own_props body) ''loading'' of
                    None \<Rightarrow> JBool False | Some v \<Rightarrow> v)"
    unfolding 2 by (simp add: map_add_def split: option.splits)
  from 1 2 3 show "\<exists>p. calls (step P (Body i (Inr body)) w) i = Some (Done (Resolved (JObj p))) \<and>
          map_of p = [''loading'' \<mapsto> JBool False] ++ map_of (own_props body) \<and>
          map_of p ''loading'' =
            Some (case map_of (own_props body) ''loading'' of
                    None \<Rightarrow> JBool False | Some v \<Rightarrow> v)"
    by blast
qed

theorem patch_has_loading_false_beneath_response_witness:
  "calls body_pending 1 = Some (Parsing ''https://shop.example.com/products/1'') \<and>
   href (location body_pending) = ''https://shop.example.com/products/1'' \<and>
   not_nullish product1 \<and> distinct (map fst (own_props product1)) \<and>
   (\<exists>p. calls (step shop_platform (Body 1 (Inr product1)) body_pending) 1
          = Some (Done (Resolved (JObj p))) \<and>
        map_of p ''loading'' = Some (JBool False) \<and>
        map_of p ''page'' = Some (JStr ''Product'')) \<and>
   not_nullish product2 \<and> distinct (map fst (own_props product2)) \<and>
   (\<exists>p. calls (step shop_platform (Body 1 (Inr product2)) body_pending) 1
          = Some (Done (Resolved (JObj p))) \<and>
        map_of p ''loading'' = Some (JBool True))"
proof -
  have h1: "calls body_pending 1 = Some (Parsing ''https://shop.example.com/products/1'') \<and>
    href (location body_pending) = ''https://shop.example.com/products/1'' \<and>
    not_nullish product1 \<and> distinct (map fst (own_props product1))"
    by (simp add: body_pending_eval shop_location_def not_nullish_def product1_def)
  have h2: "calls body_pending 1 = Some (Parsing ''https://shop.example.com/products/1'') \<and>
    href (location body_pending) = ''https://shop.example.com/products/1'' \<and>
    not_nullish product2 \<and> distinct (map fst (own_props product2))"
    by (simp add: body_pending_eval shop_location_def not_nullish_def product2_def)
  from patch_has_loading_false_beneath_response [of body_pending 1 _ product1 shop_platform] h1
  obtain p1 where p1: "calls (step shop_platform (Body 1 (Inr product1)) body_pending) 1
      = Some (Done (Resolved (JObj p1)))"
    "map_of p1 = [''loading'' \<mapsto> JBool False] ++ map_of (own_props product1)"
    by blast
  from patch_has_loading_false_beneath_response [of body_pending 1 _ product2 shop_platform] h2
  obtain p2 where p2: "calls (step shop_platform (Body 1 (Inr product2)) body_pending) 1
      = Some (Done (Resolved (JObj p2)))"
    "map_of p2 ''loading'' = Some (case map_of (own_props product2) ''loading'' of
                    None \<Rightarrow> JBool False | Some v \<Rightarrow> v)"
    by blast
  have q1: "map_of p1 ''loading'' = Some (JBool False) \<and> map_of p1 ''page'' = Some (JStr ''Product'')"
    unfolding p1(2) by (simp add: product1_def map_add_def)
  have q2: "map_of p2 ''loading'' = Some (JBool True)"
    unfolding p2(2) by (simp add: product2_def)
  from h1 h2 p1(1) p2(1) q1 q2 show ?thesis by blast
qed

section \<open>Recording the state in the history\<close>

text \<open>
  C8, as the code has it. On any history object: when the attempt to record the state
  fails (the snapshot throws, or the write of the snapshot throws, as it does for a state
  over the browser's limit) and the write of null in the catch block succeeds,
  \<open>recordState\<close> returns normally, the history is as that write of null left it, the
  warning is on the console, and each patched method goes on to the history operation it
  wraps.
\<close>

theorem failed_recording_writes_null_and_warns:
  "recording_fails (history replace) w \<and>
   history replace [JStr (location_path w), JNull] w = Inr w' \<longrightarrow>
     recordState (history replace) w =
       Inr (w'\<lparr> console := console w' @ [recordState_warning] \<rparr>) \<and>
     (m \<in> {push, go, goBack, goForward} \<longrightarrow>
        recordStateOnChange history m args w =
          history m args (w'\<lparr> console := console w' @ [recordState_warning] \<rparr>))"
proof (intro impI)
  assume a: "recording_fails (history replace) w \<and>
   history replace [JStr (location_path w), JNull] w = Inr w'"
  have r: "recordState (history replace) w =
       Inr (w'\<lparr> console := console w' @ [recordState_warning] \<rparr>)"
  proof (cases "app_toJSON w")
    case (Inl e)
    with a show ?thesis
      by (simp add: recordState_def Let_def)
  next
    case (Inr snapshot)
    with a obtain e where "history replace [JStr (location_path w), snapshot] w = Inl e"
      by (auto simp: recording_fails_def split: sum.splits)
    with Inr a show ?thesis
      by (simp add: recordState_def Let_def)
  qed
  show "recordState (history replace) w =
       Inr (w'\<lparr> console := console w' @ [recordState_warning] \<rparr>) \<and>
     (m \<in> {push, go, goBack, goForward} \<longrightarrow>
        recordStateOnChange history m args w =
          history m args (w'\<lparr> console := console w' @ [recordState_warning] \<rparr>))"
    using r by (simp add: recordStateOnChange_wrapped)
qed

theorem failed_recording_writes_null_and_warns_witness:
  "recording_fails (browser_history replace) small_browser \<and>
   browser_history replace [JStr (location_path small_browser), JNull] small_browser =
     Inr (small_browser\<lparr> current := (''/products/1'', JNull),
            history_calls := [(replace, [JStr ''/products/1'', JNull])] \<rparr>) \<and>
   push \<in> {push, go, goBack, goForward} \<and>
   recordState (browser_history replace) small_browser =
     Inr (small_browser\<lparr> current := (''/products/1'', JNull),
            history_calls := [(replace, [JStr ''/products/1'', JNull])],
            console := [recordState_warning] \<rparr>) \<and>
   recordStateOnChange browser_history push [JStr ''/products/2''] small_browser =
     Inr (small_browser\<lparr> past := [(''/products/1'', JNull), (''/'', JNull)],
            current := (''/products/2'', JUndefined), future := [],
            history_calls := [(replace, [JStr ''/products/1'', JNull]),
                              (push, [JStr ''/products/2''])],
            console := [recordState_warning] \<rparr>)"
proof -
  have p: "location_path small_browser = ''/products/1''"
    by (simp add: location_path_def small_browser_def)
  have h: "history_calls small_browser = []" "console small_browser = []"
    "past small_browser = [(''/'', JNull)]" "quota small_browser = 655360"
    "\<not> writes_refused small_browser"
    "app_toJSON small_browser = Inr (JStr (replicate 2097152 CHR ''x''))"
    by (simp_all add: small_browser_def)
  have f: "recording_fails (browser_history replace) small_browser"
    by (simp add: recording_fails_def history_replace_def p h)
  have n: "browser_history replace [JStr (location_path small_browser), JNull] small_browser =
     Inr (small_browser\<lparr> current := (''/products/1'', JNull),
            history_calls := [(replace, [JStr ''/products/1'', JNull])] \<rparr>)"
    by (simp add: history_replace_def p h)
  show ?thesis
    using f n
      failed_recording_writes_null_and_warns [of browser_history small_browser
        "small_browser\<lparr> current := (''/products/1'', JNull),
            history_calls := [(replace, [JStr ''/products/1'', JNull])] \<rparr>"
        push "[JStr ''/products/2'']"]
    by (simp add: h history_push_def)
qed

text \<open>
  C8 as stated fails: on a browser that refuses every write to the session history the
  attempt to record the state fails, the write of null in the catch block (line 213,
  outside any try) throws as well, and the error reaches the caller of the patched
  \<^verbatim>\<open>push\<close>: no warning is logged and the push is not carried out.
\<close>

theorem fallback_write_throws_counterexample:
  "recording_fails (browser_history replace) refusing_browser \<and>
   recordState (browser_history replace) refusing_browser
     = Inl (DOMException ''SecurityError'') \<and>
   recordStateOnChange browser_history push [JStr ''/products/2''] refusing_browser
     = Inl (DOMException ''SecurityError'')"
proof -
  have h: "writes_refused refusing_browser" "app_toJSON refusing_browser = Inr product1"
    by (simp_all add: refusing_browser_def roomy_browser_def small_browser_def)
  have f: "recording_fails (browser_history replace) refusing_browser"
    by (simp add: recording_fails_def history_replace_def h)
  have r: "recordState (browser_history replace) refusing_browser
             = Inl (DOMException ''SecurityError'')"
    by (simp add: recordState_def Let_def history_replace_def h)
  have w: "recordStateOnChange browser_history push [JStr ''/products/2''] refusing_browser
             = Inl (DOMException ''SecurityError'')"
    using r by (simp add: recordStateOnChange_wrapped)
  from f r w show ?thesis by blast
qed

text \<open>
  C9, as the code has it. On any history object, the patched \<^verbatim>\<open>push\<close>, \<^verbatim>\<open>go\<close>,
  \<^verbatim>\<open>goBack\<close> and \<^verbatim>\<open>goForward\<close> first record the state and then, unless recording
  threw, call the method they replaced with the same arguments; \<^verbatim>\<open>replace\<close> is left
  as it was.
\<close>

theorem snapshot_before_push_go_goBack_goForward:
  "(m \<in> {push, go, goBack, goForward} \<longrightarrow>
      recordStateOnChange history m args w =
        (case recordState (history replace) w of
           Inl e \<Rightarrow> Inl e
         | Inr w' \<Rightarrow> history m args w')) \<and>
   recordStateOnChange history replace = history replace"
  by (simp add: recordStateOnChange_wrapped recordStateOnChange_replace)

theorem snapshot_before_push_go_goBack_goForward_witness:
  "goBack \<in> {push, go, goBack, goForward} \<and>
   recordState (browser_history replace) roomy_browser =
     Inr (roomy_browser\<lparr> current := (''/products/1'', product1),
            history_calls := [(replace, [JStr ''/products/1'', product1])] \<rparr>) \<and>
   recordStateOnChange browser_history goBack [] roomy_browser =
     Inr (roomy_browser\<lparr> past := [], current := (''/'', JNull),
            future := [(''/products/1'', product1)],
            history_calls := [(replace, [JStr ''/products/1'', product1]), (goBack, [])] \<rparr>) \<and>
   recordStateOnChange browser_history replace = history_replace"
proof -
  have r: "recordState (browser_history replace) roomy_browser =
     Inr (roomy_browser\<lparr> current := (''/products/1'', product1),
            history_calls := [(replace, [JStr ''/products/1'', product1])] \<rparr>)"
    by (simp add: recordState_def Let_def history_replace_def roomy_browser_def
                  small_browser_def location_path_def product1_def)
  have g: "browser_history goBack []
             (roomy_browser\<lparr> current := (''/products/1'', product1),
                history_calls := [(replace, [JStr ''/products/1'', product1])] \<rparr>) =
     Inr (roomy_browser\<lparr> past := [], current := (''/'', JNull),
            future := [(''/products/1'', product1)],
            history_calls := [(replace, [JStr ''/products/1'', product1]), (goBack, [])] \<rparr>)"
    by (simp add: history_go_by_def back1_def roomy_browser_def small_browser_def)
  show ?thesis
    using snapshot_before_push_go_goBack_goForward [of goBack browser_history "[]" roomy_browser]
      r g
    by simp
qed

text \<open>
  C9 as stated fails for \<^verbatim>\<open>replace\<close>: the only call on the underlying history is the
  replace itself, and the application state is not written.
\<close>

theorem replace_not_snapshotted_counterexample:
  "app_toJSON roomy_browser = Inr product1 \<and>
   recordStateOnChange browser_history replace [JStr ''/products/1?tab=2'', JNull] roomy_browser =
     Inr (roomy_browser\<lparr> current := (''/products/1?tab=2'', JNull),
            history_calls := [(replace, [JStr ''/products/1?tab=2'', JNull])] \<rparr>)"
  by (simp add: recordStateOnChange_replace history_replace_def roomy_browser_def
                small_browser_def)

end
